theory Spec2Isabelle
  imports Main "HOL-Library.Sublist" "HOL-Library.AList"
begin

section \<open>deb2aci: dependency closure, rootfs merge and manifest annotation\<close>

text \<open>
  A shallow embedding of \<^verbatim>\<open>src/main.go\<close>. Go strings are byte sequences, so a Go
  \<^verbatim>\<open>string\<close> is a \<^typ>\<open>string\<close> (a list of 8-bit characters). The external tools
  (apt-get, dpkg-deb, cp, actool), the file system and the vendored appc schema package
  are an explicit environment record; every command the program starts is appended to a
  trace. Log output, \<^verbatim>\<open>os.Chdir\<close> and \<^verbatim>\<open>os.MkdirAll\<close> (whose result the source ignores)
  are not recorded.
\<close>

subsection \<open>The Go standard library functions used by \<^verbatim>\<open>parseDeps\<close>\<close>

text \<open>
  \<^verbatim>\<open>unicode.IsSpace\<close> holds of U+0009..U+000D, U+0020, U+0085, U+00A0, U+1680,
  U+2000..U+200A, U+2028, U+2029, U+202F, U+205F and U+3000. \<^verbatim>\<open>strings.TrimSpace\<close>
  decodes UTF-8 from both ends; a byte sequence decodes to one of these code points
  exactly when it is the code point's UTF-8 encoding, listed here.
\<close>

definition space_encodings :: "string list" where
  "space_encodings =
    [[CHR 0x09], [CHR 0x0A], [CHR 0x0B], [CHR 0x0C], [CHR 0x0D], [CHR 0x20],
     [CHR 0xC2, CHR 0x85], [CHR 0xC2, CHR 0xA0],
     [CHR 0xE1, CHR 0x9A, CHR 0x80],
     [CHR 0xE2, CHR 0x80, CHR 0x80], [CHR 0xE2, CHR 0x80, CHR 0x81],
     [CHR 0xE2, CHR 0x80, CHR 0x82], [CHR 0xE2, CHR 0x80, CHR 0x83],
     [CHR 0xE2, CHR 0x80, CHR 0x84], [CHR 0xE2, CHR 0x80, CHR 0x85],
     [CHR 0xE2, CHR 0x80, CHR 0x86], [CHR 0xE2, CHR 0x80, CHR 0x87],
     [CHR 0xE2, CHR 0x80, CHR 0x88], [CHR 0xE2, CHR 0x80, CHR 0x89],
     [CHR 0xE2, CHR 0x80, CHR 0x8A],
     [CHR 0xE2, CHR 0x80, CHR 0xA8], [CHR 0xE2, CHR 0x80, CHR 0xA9],
     [CHR 0xE2, CHR 0x80, CHR 0xAF], [CHR 0xE2, CHR 0x81, CHR 0x9F],
     [CHR 0xE3, CHR 0x80, CHR 0x80]]"

definition leading_space :: "string \<Rightarrow> string option" where
  "leading_space s = find (\<lambda>p. prefix p s) space_encodings"

definition trailing_space :: "string \<Rightarrow> string option" where
  "trailing_space s = find (\<lambda>p. suffix p s) space_encodings"

function TrimLeftSpace :: "string \<Rightarrow> string" where
  "TrimLeftSpace s =
     (case leading_space s of
        None \<Rightarrow> s
      | Some p \<Rightarrow> TrimLeftSpace (drop (length p) s))"
  by pat_completeness auto
termination
proof (relation "measure length")
  show "wf (measure length)" by simp
next
  fix s p assume "leading_space s = Some p"
  then have "p \<in> set space_encodings" and "prefix p s"
    by (auto simp: leading_space_def find_Some_iff)
  then have "p \<noteq> []" and "length p \<le> length s"
    by (auto simp: space_encodings_def prefix_length_le)
  then show "(drop (length p) s, s) \<in> measure length"
    by (cases p) auto
qed

function TrimRightSpace :: "string \<Rightarrow> string" where
  "TrimRightSpace s =
     (case trailing_space s of
        None \<Rightarrow> s
      | Some p \<Rightarrow> TrimRightSpace (take (length s - length p) s))"
  by pat_completeness auto
termination
proof (relation "measure length")
  show "wf (measure length)" by simp
next
  fix s p assume "trailing_space s = Some p"
  then have "p \<in> set space_encodings" and "suffix p s"
    by (auto simp: trailing_space_def find_Some_iff)
  then have "p \<noteq> []" and "length p \<le> length s"
    by (auto simp: space_encodings_def suffix_length_le)
  then show "(take (length s - length p) s, s) \<in> measure length"
    by (cases p) auto
qed

declare TrimLeftSpace.simps [simp del] TrimRightSpace.simps [simp del]

definition TrimSpace :: "string \<Rightarrow> string" where
  "TrimSpace s = TrimRightSpace (TrimLeftSpace s)"

text \<open>
  \<^verbatim>\<open>strings.Split(s, sep)\<close> for a separator of one byte, the only kind the program
  passes (\<^verbatim>\<open>","\<close> and \<^verbatim>\<open>" "\<close>): the pieces of \<open>s\<close> between the occurrences of \<open>sep\<close>.
\<close>

fun Split :: "string \<Rightarrow> char \<Rightarrow> string list" where
  "Split [] sep = [[]]"
| "Split (c # cs) sep =
     (if c = sep then [] # Split cs sep
      else (case Split cs sep of
              [] \<Rightarrow> [[c]]
            | a # as \<Rightarrow> (c # a) # as))"

subsection \<open>\<^verbatim>\<open>parseDeps\<close>\<close>

datatype panic = IndexOutOfRange

text \<open>The loop body of \<^verbatim>\<open>parseDeps\<close>: \<^verbatim>\<open>deps[i] = o[0]\<close> panics when \<open>o\<close> is empty.\<close>

fun parseDeps_loop :: "string list \<Rightarrow> panic + string list" where
  "parseDeps_loop [] = Inr []"
| "parseDeps_loop (p # ps) =
     (case Split (TrimSpace p) CHR '' '' of
        [] \<Rightarrow> Inl IndexOutOfRange
      | name # _ \<Rightarrow>
          (case parseDeps_loop ps of
             Inl e \<Rightarrow> Inl e
           | Inr deps \<Rightarrow> Inr (name # deps)))"

definition parseDeps :: "string \<Rightarrow> panic + string list" where
  "parseDeps line0 =
     (let line = TrimSpace line0 in
      if length line = 0 then Inr []
      else
        let parts = Split line CHR '','' in
        if length parts = 0 then Inr []
        else parseDeps_loop parts)"

subsection \<open>The parser as the specification words it\<close>

text \<open>
  The specification's reading of the grammar, for comparison with \<^const>\<open>parseDeps\<close>:
  comma-separated clauses, each clause tokenized on white space, the first token
  kept, a clause without tokens skipped.
\<close>

definition white_space :: "char \<Rightarrow> bool" where
  "white_space c \<longleftrightarrow> c \<in> {CHR 0x09, CHR 0x0A, CHR 0x0B, CHR 0x0C, CHR 0x0D, CHR 0x20}"

definition spec_first_token :: "string \<Rightarrow> string option" where
  "spec_first_token clause =
     (case dropWhile white_space clause of
        [] \<Rightarrow> None
      | t \<Rightarrow> Some (takeWhile (\<lambda>c. \<not> white_space c) t))"

definition spec_Parse :: "string \<Rightarrow> string list" where
  "spec_Parse declaration = List.map_filter spec_first_token (Split declaration CHR '','')"

subsection \<open>Data and environment\<close>

record deb =
  Name :: string
  Path :: string
  Version :: string
  Arch :: string

text \<open>
  \<^verbatim>\<open>schema.ImageManifest\<close> is declared in the vendored appc package: its annotation
  sequence (name and value of each entry) and, kept opaque, all its other fields.
\<close>

record 'f ImageManifest =
  Annotations :: "(string \<times> string) list"
  Fields :: 'f

datatype error =
    TempDirError
  | RunError "string list"
  | Unexpected "string list option"
  | OutputError "string list"
  | SanitizeError string
  | IdentifierError string
  | MarshalError
  | WriteFileError string
  | Panic panic

datatype effect =
    Exec "string list"
  | WriteFile string string
  | RemoveAll string

text \<open>
  The answers of the environment. \<open>pkg_tempdir w pkg\<close> is the directory that
  \<^verbatim>\<open>ioutil.TempDir(dir, "pkg")\<close> returns inside \<^verbatim>\<open>download(pkg, ...)\<close> (\<open>None\<close>: an
  error); \<open>run_ok w argv\<close> says that \<^verbatim>\<open>run\<close> of that command returns no error;
  \<open>combined_output w argv\<close> is the output of the command (\<open>None\<close>: an error);
  \<open>glob w pattern\<close> is the result of \<^verbatim>\<open>filepath.Glob\<close> (\<open>None\<close>: an error);
  \<open>range_order w\<close> is the order in which \<^verbatim>\<open>range fs\<close> visits the values of the map
  in \<^verbatim>\<open>createACI\<close>, which Go leaves unspecified.
\<close>

record 'f world =
  work_tempdir :: "string option"
  pkg_tempdir :: "string \<Rightarrow> string option"
  image_tempdir :: "string option"
  run_ok :: "string list \<Rightarrow> bool"
  combined_output :: "string list \<Rightarrow> string option"
  glob :: "string \<Rightarrow> string list option"
  range_order :: "deb list \<Rightarrow> deb list"
  SanitizeACIdentifier :: "string \<Rightarrow> string option"
  NewACIdentifier :: "string \<Rightarrow> string option"
  MarshalJSON :: "'f ImageManifest \<Rightarrow> string option"
  write_ok :: "string \<Rightarrow> bool"

text \<open>\<^verbatim>\<open>filepath.Join\<close> of a clean directory path and one path element.\<close>

definition Join :: "string \<Rightarrow> string \<Rightarrow> string" where
  "Join d e = d @ ''/'' @ e"

text \<open>
  \<^verbatim>\<open>run\<close> starts the command and returns its error; \<^verbatim>\<open>output\<close> (here \<open>output_of\<close>) returns the trimmed
  output of the command or an \<^verbatim>\<open>errorf\<close> error.
\<close>

definition run :: "'f world \<Rightarrow> string list \<Rightarrow> effect list \<Rightarrow> error option \<times> effect list" where
  "run w cmd tr = (if run_ok w cmd then None else Some (RunError cmd), tr @ [Exec cmd])"

definition output_of :: "'f world \<Rightarrow> string list \<Rightarrow> effect list \<Rightarrow> (error + string) \<times> effect list" where
  "output_of w cmd tr =
     (case combined_output w cmd of
        None \<Rightarrow> Inl (OutputError cmd)
      | Some out \<Rightarrow> Inr (TrimSpace out),
      tr @ [Exec cmd])"

subsection \<open>\<^verbatim>\<open>download\<close>\<close>

text \<open>The map \<^verbatim>\<open>done\<close> (here \<open>done_map\<close>) in insertion order, and the trace of commands so far.\<close>

record dstate =
  done_map :: "(string \<times> deb) list"
  trace :: "effect list"

text \<open>
  The loops \<^verbatim>\<open>for _, x := range xs { if err := f(x); err != nil { return err } }\<close> of
  \<^verbatim>\<open>convert\<close> and \<^verbatim>\<open>download\<close>. The outer \<open>None\<close> is a call that does not return.
\<close>

fun for_each ::
  "('a \<Rightarrow> 's \<Rightarrow> (error option \<times> 's) option) \<Rightarrow> 'a list \<Rightarrow> 's \<Rightarrow> (error option \<times> 's) option"
where
  "for_each f [] s = Some (None, s)"
| "for_each f (x # xs) s =
     (case f x s of
        None \<Rightarrow> None
      | Some (Some e, s') \<Rightarrow> Some (Some e, s')
      | Some (None, s') \<Rightarrow> for_each f xs s')"

text \<open>
  Lines 147 to 192 of \<^verbatim>\<open>download\<close>, which do not recurse: fetch and unpack the package,
  record it in \<^verbatim>\<open>done\<close>, read and parse its \<^verbatim>\<open>Depends\<close> field.
\<close>

definition download_fetch ::
  "'f world \<Rightarrow> string \<Rightarrow> string \<Rightarrow> dstate \<Rightarrow> (error + string list) \<times> dstate"
where
  "download_fetch w pkg dir s =
     (case pkg_tempdir w pkg of
        None \<Rightarrow> (Inl TempDirError, s)
      | Some tdir \<Rightarrow>
     (case run w [''apt-get'', ''download'', pkg] (trace s) of
        (Some e, t1) \<Rightarrow> (Inl e, s\<lparr>trace := t1\<rparr>)
      | (None, t1) \<Rightarrow>
     (case glob w (Join tdir ''*.deb'') of
        None \<Rightarrow> (Inl (Unexpected None), s\<lparr>trace := t1\<rparr>)
      | Some matches \<Rightarrow>
     (case matches of
        [debName] \<Rightarrow>
     (case run w [''dpkg-deb'', ''-x'', debName, Join tdir ''out''] t1 of
        (Some e, t2) \<Rightarrow> (Inl e, s\<lparr>trace := t2\<rparr>)
      | (None, t2) \<Rightarrow>
     (case output_of w [''dpkg-deb'', ''-f'', debName, ''Architecture''] t2 of
        (Inl e, t3) \<Rightarrow> (Inl e, s\<lparr>trace := t3\<rparr>)
      | (Inr arch, t3) \<Rightarrow>
     (case output_of w [''dpkg-deb'', ''-f'', debName, ''Version''] t3 of
        (Inl e, t4) \<Rightarrow> (Inl e, s\<lparr>trace := t4\<rparr>)
      | (Inr ver, t4) \<Rightarrow>
     (let done1 = AList.update pkg
                    \<lparr>Name = pkg, Path = Join tdir ''out'', Version = ver, Arch = arch\<rparr>
                    (done_map s)
      in
     (case output_of w [''dpkg-deb'', ''-f'', debName, ''Depends''] t4 of
        (Inl e, t5) \<Rightarrow> (Inl e, \<lparr>done_map = done1, trace = t5\<rparr>)
      | (Inr out, t5) \<Rightarrow>
     (case parseDeps out of
        Inl p \<Rightarrow> (Inl (Panic p), \<lparr>done_map = done1, trace = t5\<rparr>)
      | Inr deps \<Rightarrow> (Inr deps, \<lparr>done_map = done1, trace = t5\<rparr>)))))))
      | _ \<Rightarrow> (Inl (Unexpected (Some matches)), s\<lparr>trace := t1\<rparr>)))))"

text \<open>
  \<^verbatim>\<open>download\<close>, with the depth of the recursion bounded by the first argument: \<open>None\<close>
  is a call whose recursion is deeper than the bound.
\<close>

primrec download ::
  "nat \<Rightarrow> 'f world \<Rightarrow> string \<Rightarrow> string \<Rightarrow> dstate \<Rightarrow> (error option \<times> dstate) option"
where
  "download 0 w pkg dir s = None"
| "download (Suc n) w pkg dir s =
     (if map_of (done_map s) pkg \<noteq> None then Some (None, s)
      else
        (case download_fetch w pkg dir s of
           (Inl e, s') \<Rightarrow> Some (Some e, s')
         | (Inr deps, s') \<Rightarrow>
             if length deps \<noteq> 0 then for_each (\<lambda>d. download n w d dir) deps s'
             else Some (None, s')))"

subsection \<open>\<^verbatim>\<open>createACI\<close> and \<^verbatim>\<open>convert\<close>\<close>

text \<open>
  Modelled from the spec: \<^verbatim>\<open>Annotations.Set\<close> of the vendored appc package
  \<^verbatim>\<open>schema/types\<close>, which is not among the sources. Section 4.4 of the specification:
  an annotation is appended to the manifest's annotation sequence.
\<close>

definition Annotations_Set ::
  "string \<Rightarrow> string \<Rightarrow> (string \<times> string) list \<Rightarrow> (string \<times> string) list"
where
  "Annotations_Set name val annos = annos @ [(name, val)]"

text \<open>The loop of \<^verbatim>\<open>createACI\<close> over the packages, in the order \<^verbatim>\<open>range\<close> yields them.\<close>

fun createACI_loop ::
  "'f world \<Rightarrow> string \<Rightarrow> deb list \<Rightarrow> 'f ImageManifest \<Rightarrow> effect list
     \<Rightarrow> error option \<times> 'f ImageManifest \<times> effect list"
where
  "createACI_loop w rootfs [] m tr = (None, m, tr)"
| "createACI_loop w rootfs (d # ds) m tr =
     (case run w [''cp'', ''-a'', Path d @ ''/.'', rootfs] tr of
        (Some e, tr1) \<Rightarrow> (Some e, m, tr1)
      | (None, tr1) \<Rightarrow>
     (case SanitizeACIdentifier w (''debian.org/deb/'' @ Name d) of
        None \<Rightarrow> (Some (SanitizeError (Name d)), m, tr1)
      | Some i \<Rightarrow>
     (case NewACIdentifier w i of
        None \<Rightarrow> (Some (IdentifierError i), m, tr1)
      | Some a \<Rightarrow>
          createACI_loop w rootfs ds
            (m\<lparr>Annotations := Annotations_Set a (Arch d @ ''/'' @ Version d) (Annotations m)\<rparr>)
            tr1)))"

definition createACI ::
  "'f world \<Rightarrow> string \<Rightarrow> (string \<times> deb) list \<Rightarrow> string \<Rightarrow> 'f ImageManifest \<Rightarrow> effect list
     \<Rightarrow> error option \<times> 'f ImageManifest \<times> effect list"
where
  "createACI w dir fs img m tr =
     (case image_tempdir w of
        None \<Rightarrow> (Some TempDirError, m, tr)
      | Some idir \<Rightarrow>
     (case createACI_loop w (Join idir ''rootfs'') (range_order w (map snd fs)) m tr of
        (Some e, m', tr') \<Rightarrow> (Some e, m', tr')
      | (None, m', tr') \<Rightarrow>
     (case MarshalJSON w m' of
        None \<Rightarrow> (Some MarshalError, m', tr')
      | Some bytes \<Rightarrow>
          if \<not> write_ok w (Join idir ''manifest'')
          then (Some (WriteFileError (Join idir ''manifest'')), m',
                tr' @ [WriteFile (Join idir ''manifest'') bytes])
          else
            (case run w [''actool'', ''build'', ''-overwrite'', idir, img]
                    (tr' @ [WriteFile (Join idir ''manifest'') bytes]) of
               (r, tr'') \<Rightarrow> (r, m', tr'')))))"

text \<open>
  \<^verbatim>\<open>convert\<close>: the error, the manifest object (which \<^verbatim>\<open>createACI\<close> updates in place)
  and the trace. The deferred \<^verbatim>\<open>os.RemoveAll(dir)\<close> is the last effect of every return
  after the working directory was made.
\<close>

definition convert ::
  "nat \<Rightarrow> 'f world \<Rightarrow> string list \<Rightarrow> string \<Rightarrow> 'f ImageManifest
     \<Rightarrow> (error option \<times> 'f ImageManifest \<times> effect list) option"
where
  "convert n w pkgs img manifest =
     (case work_tempdir w of
        None \<Rightarrow> Some (Some TempDirError, manifest, [])
      | Some dir \<Rightarrow>
     (case for_each (\<lambda>pkg. download n w pkg dir) pkgs \<lparr>done_map = [], trace = []\<rparr> of
        None \<Rightarrow> None
      | Some (Some e, s) \<Rightarrow> Some (Some e, manifest, trace s @ [RemoveAll dir])
      | Some (None, s) \<Rightarrow>
          (case createACI w dir (done_map s) img manifest (trace s) of
             (r, m', tr) \<Rightarrow> Some (r, m', tr @ [RemoveAll dir]))))"

section \<open>The parser\<close>

subsection \<open>Auxiliary facts\<close>

lemma Split_not_Nil: "Split s c \<noteq> []"
  by (induction s) (auto split: list.splits)

lemma Split_first: "Split s c = a # as \<Longrightarrow> a = takeWhile (\<lambda>x. x \<noteq> c) s"
  by (induction s arbitrary: a as) (auto split: if_splits list.splits simp: Split_not_Nil)

lemma length_Split: "length (Split s c) = Suc (count_list s c)"
  by (induction s) (auto split: list.splits simp: Split_not_Nil)

lemma parseDeps_loop_eq:
  "parseDeps_loop ps = Inr (map (\<lambda>p. takeWhile (\<lambda>x. x \<noteq> CHR '' '') (TrimSpace p)) ps)"
proof (induction ps)
  case Nil
  show ?case by simp
next
  case (Cons p ps)
  obtain a as where sp: "Split (TrimSpace p) CHR '' '' = a # as"
    using Split_not_Nil by (cases "Split (TrimSpace p) CHR '' ''") auto
  from Split_first [OF sp] show ?case
    using Cons.IH sp by simp
qed

lemma parseDeps_eq:
  "parseDeps line =
     Inr (if TrimSpace line = [] then []
          else map (\<lambda>p. takeWhile (\<lambda>x. x \<noteq> CHR '' '') (TrimSpace p))
                 (Split (TrimSpace line) CHR '',''))"
  by (simp add: parseDeps_def Let_def parseDeps_loop_eq Split_not_Nil)

lemma leading_space_SomeD:
  "leading_space s = Some p \<Longrightarrow> p \<in> set space_encodings \<and> prefix p s"
  by (auto simp: leading_space_def find_Some_iff)

lemma leading_space_None_iff:
  "leading_space s = None \<longleftrightarrow> (\<forall>p \<in> set space_encodings. \<not> prefix p s)"
  by (auto simp: leading_space_def find_None_iff)

lemma trailing_space_SomeD:
  "trailing_space s = Some p \<Longrightarrow> p \<in> set space_encodings \<and> suffix p s"
  by (auto simp: trailing_space_def find_Some_iff)

lemma leading_space_TrimLeftSpace: "leading_space (TrimLeftSpace s) = None"
proof (induction s rule: TrimLeftSpace.induct)
  case (1 s)
  show ?case
  proof (cases "leading_space s")
    case None
    then show ?thesis by (simp add: TrimLeftSpace.simps)
  next
    case (Some p)
    with 1 show ?thesis by (simp add: TrimLeftSpace.simps)
  qed
qed

lemma prefix_TrimRightSpace: "prefix (TrimRightSpace s) s"
proof (induction s rule: TrimRightSpace.induct)
  case (1 s)
  show ?case
  proof (cases "trailing_space s")
    case None
    then show ?thesis by (simp add: TrimRightSpace.simps)
  next
    case (Some p)
    with 1 have "prefix (TrimRightSpace s) (take (length s - length p) s)"
      by (simp add: TrimRightSpace.simps)
    moreover have "prefix (take (length s - length p) s) s"
      by (rule take_is_prefix)
    ultimately show ?thesis by (rule prefix_order.trans)
  qed
qed

lemma space_in_encodings: "[CHR '' ''] \<in> set space_encodings"
  by (simp add: space_encodings_def)

lemma TrimSpace_no_leading_space: "TrimSpace s = c # cs \<Longrightarrow> c \<noteq> CHR '' ''"
proof
  assume t: "TrimSpace s = c # cs" and c: "c = CHR '' ''"
  have "prefix (c # cs) (TrimLeftSpace s)"
    using prefix_TrimRightSpace [of "TrimLeftSpace s"] t by (simp add: TrimSpace_def)
  then have "prefix [CHR '' ''] (TrimLeftSpace s)"
    using c by (auto simp: prefix_def)
  moreover have "\<not> prefix [CHR '' ''] (TrimLeftSpace s)"
    using leading_space_TrimLeftSpace [of s] space_in_encodings
    by (auto simp: leading_space_None_iff)
  ultimately show False by simp
qed

lemma first_token_empty_iff:
  "takeWhile (\<lambda>x. x \<noteq> CHR '' '') (TrimSpace p) = [] \<longleftrightarrow> TrimSpace p = []"
  by (cases "TrimSpace p") (auto dest: TrimSpace_no_leading_space)

lemma encodings_prefix_free:
  "p \<in> set space_encodings \<Longrightarrow> q \<in> set space_encodings \<Longrightarrow> prefix q (p @ r) \<Longrightarrow> q = p"
proof -
  have pf: "\<forall>p \<in> set space_encodings. \<forall>q \<in> set space_encodings.
              prefix q p \<or> prefix p q \<longrightarrow> q = p"
    by code_simp
  assume p: "p \<in> set space_encodings" and q: "q \<in> set space_encodings"
    and "prefix q (p @ r)"
  then have "prefix q p \<or> prefix p q"
    by (auto simp: prefix_append)
  with pf p q show "q = p" by blast
qed

lemma leading_space_append:
  assumes "p \<in> set space_encodings"
  shows "leading_space (p @ r) = Some p"
proof -
  have "leading_space (p @ r) \<noteq> None"
    using assms by (auto simp: leading_space_None_iff intro!: bexI [of _ p])
  then obtain q where q: "leading_space (p @ r) = Some q" by auto
  from leading_space_SomeD [OF q] assms have "q = p"
    by (auto dest: encodings_prefix_free)
  with q show ?thesis by simp
qed

lemma TrimLeftSpace_concat:
  "set ps \<subseteq> set space_encodings \<Longrightarrow> TrimLeftSpace (concat ps) = []"
proof (induction ps)
  case Nil
  have "leading_space [] = None"
    by (simp add: leading_space_def space_encodings_def)
  then show ?case by (simp add: TrimLeftSpace.simps)
next
  case (Cons p ps)
  then have "leading_space (p @ concat ps) = Some p"
    by (simp add: leading_space_append)
  with Cons show ?case by (simp add: TrimLeftSpace.simps)
qed

lemma TrimRightSpace_Nil: "TrimRightSpace [] = []"
  using prefix_TrimRightSpace [of "[]"] by simp

lemma TrimSpace_concat:
  "set ps \<subseteq> set space_encodings \<Longrightarrow> TrimSpace (concat ps) = []"
  by (simp add: TrimSpace_def TrimLeftSpace_concat TrimRightSpace_Nil)

subsection \<open>Claims about \<^verbatim>\<open>parseDeps\<close>\<close>

text \<open>
  Claim C2, as stated: every clause is tokenized on white space and its first token is the
  name. \<^const>\<open>parseDeps\<close> splits a clause on the space character only: after a tab the
  name goes on to the next space.
\<close>

theorem parseDeps_tab_counterexample:
  "parseDeps (''libc6'' @ [CHR 0x09] @ ''(>= 2.14)'') = Inr [''libc6'' @ [CHR 0x09] @ ''(>='']
   \<and> spec_Parse (''libc6'' @ [CHR 0x09] @ ''(>= 2.14)'') = [''libc6'']"
  by code_simp

text \<open>
  Claim C2, amended: for every declaration that is not empty after trimming,
  \<^const>\<open>parseDeps\<close> splits the trimmed declaration on commas and returns, for each
  clause in order, the part of the trimmed clause before its first space character
  (U+0020; a tab or another white space character does not end the name). What follows
  that space, a version constraint or an alternative after \<open>|\<close>, is discarded.
\<close>

theorem parseDeps_first_token:
  "TrimSpace line \<noteq> [] \<Longrightarrow>
   parseDeps line =
     Inr (map (\<lambda>clause. takeWhile (\<lambda>c. c \<noteq> CHR '' '') (TrimSpace clause))
            (Split (TrimSpace line) CHR '',''))"
  by (simp add: parseDeps_eq)

theorem parseDeps_first_token_witness:
  "TrimSpace ''libc6 (>= 2.14), libssl1.1'' \<noteq> []
   \<and> parseDeps ''libc6 (>= 2.14), libssl1.1'' = Inr [''libc6'', ''libssl1.1'']
   \<and> TrimSpace ''foo | bar'' \<noteq> []
   \<and> parseDeps ''foo | bar'' = Inr [''foo'']"
proof -
  have h1: "TrimSpace ''libc6 (>= 2.14), libssl1.1'' \<noteq> []" by code_simp
  have h2: "TrimSpace ''foo | bar'' \<noteq> []" by code_simp
  have e1: "map (\<lambda>clause. takeWhile (\<lambda>c. c \<noteq> CHR '' '') (TrimSpace clause))
              (Split (TrimSpace ''libc6 (>= 2.14), libssl1.1'') CHR '','')
            = [''libc6'', ''libssl1.1'']" by code_simp
  have e2: "map (\<lambda>clause. takeWhile (\<lambda>c. c \<noteq> CHR '' '') (TrimSpace clause))
              (Split (TrimSpace ''foo | bar'') CHR '','')
            = [''foo'']" by code_simp
  show ?thesis
    using parseDeps_first_token [OF h1] parseDeps_first_token [OF h2] h1 h2
    by (simp only: e1 e2 simp_thms)
qed

text \<open>
  Claim C3, as stated: a clause that is empty after trimming is skipped, so no name is the
  empty string. \<^const>\<open>parseDeps\<close> returns the empty name for such a clause.
\<close>

theorem parseDeps_empty_clause_counterexample:
  "parseDeps ''a,,b'' = Inr [''a'', [], ''b''] \<and> parseDeps ''a, b,'' = Inr [''a'', ''b'', []]"
  by code_simp

text \<open>
  Claim C3, amended: for every declaration that is not empty after trimming,
  \<^const>\<open>parseDeps\<close> returns exactly one name for each comma-separated clause (one
  more than the number of commas), and the name of a clause is the empty string exactly
  when the clause is empty after trimming: no clause is skipped.
\<close>

theorem parseDeps_one_name_per_clause:
  assumes "TrimSpace line \<noteq> []" and "parseDeps line = Inr deps"
  shows "length deps = Suc (count_list (TrimSpace line) CHR '','')
         \<and> (\<forall>i < length deps.
               deps ! i = [] \<longleftrightarrow> TrimSpace (Split (TrimSpace line) CHR '','' ! i) = [])"
proof -
  from assms have d: "deps = map (\<lambda>p. takeWhile (\<lambda>x. x \<noteq> CHR '' '') (TrimSpace p))
                              (Split (TrimSpace line) CHR '','')"
    by (simp add: parseDeps_eq)
  then have "length deps = Suc (count_list (TrimSpace line) CHR '','')"
    by (simp add: length_Split)
  moreover have "\<forall>i < length deps.
      deps ! i = [] \<longleftrightarrow> TrimSpace (Split (TrimSpace line) CHR '','' ! i) = []"
    using d by (simp add: first_token_empty_iff)
  ultimately show ?thesis by simp
qed

theorem parseDeps_one_name_per_clause_witness:
  "TrimSpace ''a,,b'' \<noteq> [] \<and> parseDeps ''a,,b'' = Inr [''a'', [], ''b'']
   \<and> length [''a'', [], ''b''] = Suc (count_list (TrimSpace ''a,,b'') CHR '','')
   \<and> TrimSpace (Split (TrimSpace ''a,,b'') CHR '','' ! 0) \<noteq> []
   \<and> TrimSpace (Split (TrimSpace ''a,,b'') CHR '','' ! 1) = []
   \<and> TrimSpace (Split (TrimSpace ''a,,b'') CHR '','' ! 2) \<noteq> []"
proof -
  have h1: "TrimSpace ''a,,b'' \<noteq> []" by code_simp
  have h2: "parseDeps ''a,,b'' = Inr [''a'', [], ''b'']" by code_simp
  from parseDeps_one_name_per_clause [OF h1 h2]
  have len: "length [''a'', [], ''b''] = Suc (count_list (TrimSpace ''a,,b'') CHR '','')"
    and all: "\<forall>i < length [''a'', [], ''b''].
          [''a'', [], ''b''] ! i = [] \<longleftrightarrow>
          TrimSpace (Split (TrimSpace ''a,,b'') CHR '','' ! i) = []"
    by blast+
  from all [rule_format, of 0] all [rule_format, of 1] all [rule_format, of 2]
  have "TrimSpace (Split (TrimSpace ''a,,b'') CHR '','' ! 0) \<noteq> []"
    and "TrimSpace (Split (TrimSpace ''a,,b'') CHR '','' ! 1) = []"
    and "TrimSpace (Split (TrimSpace ''a,,b'') CHR '','' ! 2) \<noteq> []"
    by simp_all
  with h1 h2 len show ?thesis by blast
qed

text \<open>
  Claim C9: \<^const>\<open>parseDeps\<close> returns a list of names on every input (the index
  \<^verbatim>\<open>o[0]\<close> is never out of range), and on a declaration made of white space only,
  the empty declaration among them, it returns the empty list.
\<close>

theorem parseDeps_total:
  "(\<exists>deps. parseDeps line = Inr deps)
   \<and> (set ps \<subseteq> set space_encodings \<longrightarrow> parseDeps (concat ps) = Inr [])"
  by (simp add: parseDeps_eq TrimSpace_concat)

theorem parseDeps_total_witness:
  "set ['' '', [CHR 0x09], [CHR 0xC2, CHR 0xA0], [CHR 0x0A]] \<subseteq> set space_encodings
   \<and> parseDeps (concat ['' '', [CHR 0x09], [CHR 0xC2, CHR 0xA0], [CHR 0x0A]]) = Inr []
   \<and> (\<exists>deps. parseDeps ''((,| >= ,'' = Inr deps)"
proof -
  have h: "set ['' '', [CHR 0x09], [CHR 0xC2, CHR 0xA0], [CHR 0x0A]] \<subseteq> set space_encodings"
    by (simp add: space_encodings_def)
  from parseDeps_total [of "''((,| >= ,''" "['' '', [CHR 0x09], [CHR 0xC2, CHR 0xA0], [CHR 0x0A]]"] h
  show ?thesis by blast
qed

end
